theory Spec2Isabelle
  imports Complex_Main "HOL-Library.AList"
begin

section \<open>FastBoxDeliverySystem: data model\<close>

text \<open>
  The embedding follows \<^verbatim>\<open>mystery_delivery_sys.py\<close>. Python floats are idealised as
  real numbers (no rounding of arithmetic, no overflow, no NaN), so \<^verbatim>\<open>float('inf')\<close>
  as the start of a running minimum is \<open>None\<close> of a \<open>real option\<close>. A Python \<^verbatim>\<open>dict\<close>
  is an association list with distinct keys in insertion order: \<^verbatim>\<open>d[k] = v\<close> is
  \<open>AList.update k v d\<close> (an existing key keeps its position, a new key goes last),
  \<^verbatim>\<open>d[k]\<close> is \<open>map_of d k\<close> with \<open>None\<close> the \<^verbatim>\<open>KeyError\<close>. Agent and warehouse
  identifiers are strings and locations are pairs of numbers, as the annotations
  \<^verbatim>\<open>Dict[str, Tuple[float, float]]\<close> of the source say. A package record is an untyped
  \<^verbatim>\<open>Dict\<close> in the source: the values it carries under \<^verbatim>\<open>'id'\<close>, \<^verbatim>\<open>'warehouse_id'\<close>
  and \<^verbatim>\<open>'warehouse'\<close> are arbitrary JSON values, the value under \<^verbatim>\<open>'destination'\<close> is a
  coordinate pair. An exception is a value \<open>Inl e\<close> of a sum type; it ends the call in
  which it is raised, and the state built so far is not returned. What the source
  prints is left out, except the warning of \<^verbatim>\<open>generate_report\<close>, which is a flag of
  its result; the functions that only print or write files (\<^verbatim>\<open>visualize_routes_ascii\<close>,
  \<^verbatim>\<open>export_top_performer_csv\<close>, \<^verbatim>\<open>main\<close>) and the field
  \<^verbatim>\<open>new_agent_joining_time\<close>, which nothing reads, are not modelled.
\<close>

type_synonym point = "real \<times> real"

datatype pyval =
    PNone
  | PBool bool
  | PNum real
  | PStr string
  | PList "pyval list"
  | PDict "(string \<times> pyval) list"

text \<open>Python truthiness, as used by \<^verbatim>\<open>or\<close> and \<^verbatim>\<open>if x:\<close>.\<close>

fun truthy :: "pyval \<Rightarrow> bool" where
  "truthy PNone = False"
| "truthy (PBool b) = b"
| "truthy (PNum x) = (x \<noteq> 0)"
| "truthy (PStr s) = (s \<noteq> [])"
| "truthy (PList xs) = (xs \<noteq> [])"
| "truthy (PDict kvs) = (kvs \<noteq> [])"

datatype error = KeyError | TypeError

datatype step_kind = to_warehouse | delivery

record route_step =
  step_from :: point
  step_to :: point
  step_distance :: real
  step_type :: step_kind

record stats =
  packages_delivered :: nat
  total_distance :: real
  current_location :: point
  route_history :: "route_step list"

text \<open>A package record of the input: \<open>None\<close> is an absent key.\<close>

record raw_package =
  f_id :: "pyval option"
  f_warehouse_id :: "pyval option"
  f_warehouse :: "pyval option"
  f_destination :: "point option"

text \<open>A parsed package: the dict with keys \<^verbatim>\<open>'id'\<close>, \<^verbatim>\<open>'warehouse'\<close>, \<^verbatim>\<open>'destination'\<close>.\<close>

record package =
  pkg_id :: pyval
  warehouse :: pyval
  destination :: point

text \<open>
  The two accepted shapes of the \<^verbatim>\<open>warehouses\<close> and \<^verbatim>\<open>agents\<close> slots: a list of
  \<^verbatim>\<open>{id, location}\<close> records, or a mapping; anything else parses to the empty dict.
\<close>

datatype locations_data =
    AsList "(string \<times> point) list"
  | AsDict "(string \<times> point) list"
  | AsOther

record json_data =
  j_warehouses :: "locations_data option"
  j_agents :: "locations_data option"
  j_packages :: "raw_package list option"

text \<open>
  The object state. \<open>rng_pos\<close> is not a field of the class: it is the state of the
  module-level generator \<^verbatim>\<open>random\<close>, the number of values drawn from it so far. The
  generator itself is a parameter \<open>rnd\<close>: \<open>rnd i\<close> is the \<open>i\<close>-th value that
  \<^verbatim>\<open>random.random()\<close> returns.
\<close>

record system =
  warehouses :: "(string \<times> point) list"
  agents :: "(string \<times> point) list"
  packages :: "package list"
  agent_stats :: "(string \<times> stats) list"
  enable_random_delays :: bool
  rng_pos :: nat

record report_entry =
  r_packages_delivered :: nat
  r_total_distance :: real
  r_efficiency :: real

text \<open>A value of the report dict: a per-agent entry, or the best agent's identifier.\<close>

datatype report_value = Entry report_entry | Designator string

section \<open>Loading\<close>

fun insert_all :: "(string \<times> point) list \<Rightarrow> (string \<times> point) list \<Rightarrow> (string \<times> point) list" where
  "insert_all d [] = d"
| "insert_all d ((k, loc) # rest) = insert_all (AList.update k loc d) rest"

fun parse_warehouses :: "locations_data \<Rightarrow> (string \<times> point) list" where
  "parse_warehouses (AsList recs) = insert_all [] recs"
| "parse_warehouses (AsDict items) = insert_all [] items"
| "parse_warehouses AsOther = []"

fun parse_agents :: "locations_data \<Rightarrow> (string \<times> point) list" where
  "parse_agents (AsList recs) = insert_all [] recs"
| "parse_agents (AsDict items) = insert_all [] items"
| "parse_agents AsOther = []"

text \<open>\<^verbatim>\<open>package.get(k)\<close>: the value, or \<^verbatim>\<open>None\<close> when the key is absent.\<close>

definition dict_get :: "pyval option \<Rightarrow> pyval" where
  "dict_get f = (case f of None \<Rightarrow> PNone | Some v \<Rightarrow> v)"

text \<open>\<^verbatim>\<open>a or b\<close>.\<close>

definition py_or :: "pyval \<Rightarrow> pyval \<Rightarrow> pyval" where
  "py_or a b = (if truthy a then a else b)"

text \<open>One iteration of the loop of \<^verbatim>\<open>_parse_packages\<close>.\<close>

definition parse_package :: "raw_package \<Rightarrow> error + package" where
  "parse_package p =
     (let warehouse_id = py_or (dict_get (f_warehouse_id p)) (dict_get (f_warehouse p))
      in case f_id p of
           None \<Rightarrow> Inl KeyError
         | Some i \<Rightarrow>
             (case f_destination p of
                None \<Rightarrow> Inl KeyError
              | Some d \<Rightarrow> Inr \<lparr>pkg_id = i, warehouse = warehouse_id, destination = d\<rparr>))"

fun parse_packages :: "raw_package list \<Rightarrow> error + package list" where
  "parse_packages [] = Inr []"
| "parse_packages (p # ps) =
     (case parse_package p of
        Inl e \<Rightarrow> Inl e
      | Inr q \<Rightarrow> (case parse_packages ps of Inl e \<Rightarrow> Inl e | Inr qs \<Rightarrow> Inr (q # qs)))"

definition fresh_stats :: "point \<Rightarrow> stats" where
  "fresh_stats loc =
     \<lparr>packages_delivered = 0, total_distance = 0, current_location = loc, route_history = []\<rparr>"

text \<open>
  \<^verbatim>\<open>_initialize_agent_stats\<close>: the loop over \<^verbatim>\<open>self.agents.keys()\<close>, reading
  \<^verbatim>\<open>self.agents[agent_id]\<close>.
\<close>

fun initialize_loop ::
  "(string \<times> point) list \<Rightarrow> string list \<Rightarrow> (string \<times> stats) list \<Rightarrow> error + (string \<times> stats) list" where
  "initialize_loop ags [] st = Inr st"
| "initialize_loop ags (a # as) st =
     (case map_of ags a of
        None \<Rightarrow> Inl KeyError
      | Some loc \<Rightarrow> initialize_loop ags as (AList.update a (fresh_stats loc) st))"

definition initialize_agent_stats :: "system \<Rightarrow> error + system" where
  "initialize_agent_stats s =
     (case initialize_loop (agents s) (map fst (agents s)) (agent_stats s) of
        Inl e \<Rightarrow> Inl e
      | Inr st \<Rightarrow> Inr (s\<lparr>agent_stats := st\<rparr>))"

text \<open>\<^verbatim>\<open>__init__\<close>; \<^verbatim>\<open>json_data.get(k, default)\<close> supplies the default for an absent slot.\<close>

definition init :: "json_data \<Rightarrow> error + system" where
  "init d =
     (let ws = parse_warehouses (case j_warehouses d of None \<Rightarrow> AsDict [] | Some w \<Rightarrow> w);
          ags = parse_agents (case j_agents d of None \<Rightarrow> AsDict [] | Some a \<Rightarrow> a)
      in case parse_packages (case j_packages d of None \<Rightarrow> [] | Some ps \<Rightarrow> ps) of
           Inl e \<Rightarrow> Inl e
         | Inr ps \<Rightarrow>
             initialize_agent_stats
               \<lparr>warehouses = ws, agents = ags, packages = ps, agent_stats = [],
                enable_random_delays = False, rng_pos = 0\<rparr>)"

section \<open>Geometry and assignment\<close>

fun calculate_distance :: "point \<Rightarrow> point \<Rightarrow> real" where
  "calculate_distance (x1, y1) (x2, y2) = sqrt ((x2 - x1)\<^sup>2 + (y2 - y1)\<^sup>2)"

text \<open>\<^verbatim>\<open>distance < min_distance\<close>, with \<open>None\<close> the initial \<^verbatim>\<open>float('inf')\<close>.\<close>

fun less_min :: "real \<Rightarrow> real option \<Rightarrow> bool" where
  "less_min d None = True"
| "less_min d (Some m) = (d < m)"

text \<open>The loop of \<^verbatim>\<open>find_nearest_agent\<close>, with its two running variables.\<close>

fun nearest_loop ::
  "(string \<times> stats) list \<Rightarrow> point \<Rightarrow> string list \<Rightarrow> string option \<Rightarrow> real option \<Rightarrow> error + string option" where
  "nearest_loop st w [] nearest_agent min_distance = Inr nearest_agent"
| "nearest_loop st w (agent_id # rest) nearest_agent min_distance =
     (case map_of st agent_id of
        None \<Rightarrow> Inl KeyError
      | Some s \<Rightarrow>
          (let distance = calculate_distance (current_location s) w
           in if less_min distance min_distance
              then nearest_loop st w rest (Some agent_id) (Some distance)
              else nearest_loop st w rest nearest_agent min_distance))"

definition find_nearest_agent :: "system \<Rightarrow> point \<Rightarrow> string list option \<Rightarrow> error + string option" where
  "find_nearest_agent s warehouse_location available_agents =
     nearest_loop (agent_stats s) warehouse_location
       (case available_agents of None \<Rightarrow> map fst (agents s) | Some l \<Rightarrow> l) None None"

text \<open>
  \<^verbatim>\<open>self.warehouses[warehouse_id]\<close> for the warehouse reference of a package: the keys
  of the dict are strings, a list or a dict is unhashable.
\<close>

fun lookup_warehouse :: "(string \<times> point) list \<Rightarrow> pyval \<Rightarrow> error + point" where
  "lookup_warehouse ws (PStr k) = (case map_of ws k of None \<Rightarrow> Inl KeyError | Some loc \<Rightarrow> Inr loc)"
| "lookup_warehouse ws (PList xs) = Inl TypeError"
| "lookup_warehouse ws (PDict kvs) = Inl TypeError"
| "lookup_warehouse ws PNone = Inl KeyError"
| "lookup_warehouse ws (PBool b) = Inl KeyError"
| "lookup_warehouse ws (PNum x) = Inl KeyError"

text \<open>
  \<^verbatim>\<open>if nearest_agent:\<close> (and \<^verbatim>\<open>if best_agent:\<close> in the report) is false for
  \<^verbatim>\<open>None\<close> and for the empty string; where it is true the variable holds an identifier.
\<close>

fun truthy_id :: "string option \<Rightarrow> bool" where
  "truthy_id None = False"
| "truthy_id (Some a) = (a \<noteq> [])"

fun assign_loop ::
  "system \<Rightarrow> package list \<Rightarrow> (string \<times> package list) list \<Rightarrow> error + (string \<times> package list) list" where
  "assign_loop s [] agent_assignments = Inr agent_assignments"
| "assign_loop s (p # ps) agent_assignments =
     (case lookup_warehouse (warehouses s) (warehouse p) of
        Inl e \<Rightarrow> Inl e
      | Inr warehouse_location \<Rightarrow>
          (case find_nearest_agent s warehouse_location None of
             Inl e \<Rightarrow> Inl e
           | Inr nearest_agent \<Rightarrow>
               if truthy_id nearest_agent
               then (case map_of agent_assignments (the nearest_agent) of
                       None \<Rightarrow> Inl KeyError
                     | Some l \<Rightarrow>
                         assign_loop s ps
                           (AList.update (the nearest_agent) (l @ [p]) agent_assignments))
               else assign_loop s ps agent_assignments))"

definition assign_packages_to_agents :: "system \<Rightarrow> error + (string \<times> package list) list" where
  "assign_packages_to_agents s =
     assign_loop s (packages s) (map (\<lambda>agent_id. (agent_id, [])) (map fst (agents s)))"

section \<open>Route simulation\<close>

text \<open>\<^verbatim>\<open>random.uniform(a, b)\<close> is \<^verbatim>\<open>a + (b - a) * random()\<close>.\<close>

definition uniform :: "(nat \<Rightarrow> real) \<Rightarrow> nat \<Rightarrow> real \<Rightarrow> real \<Rightarrow> real" where
  "uniform rnd n a b = a + (b - a) * rnd n"

text \<open>\<^verbatim>\<open>simulate_random_delay\<close>: the multiplier and the generator's new position.\<close>

definition simulate_random_delay :: "(nat \<Rightarrow> real) \<Rightarrow> bool \<Rightarrow> nat \<Rightarrow> real \<times> nat" where
  "simulate_random_delay rnd enabled n =
     (if \<not> enabled then (1, n) else (1 + uniform rnd n 0 (3 / 10), Suc n))"





text \<open>\<^verbatim>\<open>str(n)\<close> for a natural number.\<close>

definition digit_char :: "nat \<Rightarrow> char" where
  "digit_char d = ''0123456789'' ! d"

fun str_nat :: "nat \<Rightarrow> string" where
  "str_nat n = (if n < 10 then [digit_char n] else str_nat (n div 10) @ [digit_char (n mod 10)])"

definition add_new_agent_mid_day :: "(nat \<Rightarrow> real) \<Rightarrow> system \<Rightarrow> system" where
  "add_new_agent_mid_day rnd s =
     (if length (packages s) > 0
      then (let new_agent_id = ''A'' @ str_nat (length (agents s) + 1);
                new_location = (uniform rnd (rng_pos s) 0 100, uniform rnd (rng_pos s + 1) 0 100)
            in s\<lparr>agents := AList.update new_agent_id new_location (agents s),
                 agent_stats := AList.update new_agent_id (fresh_stats new_location) (agent_stats s),
                 rng_pos := rng_pos s + 2\<rparr>)
      else s)"


section \<open>Reporting\<close>

text \<open>
  \<^verbatim>\<open>round(x, 2)\<close>: the nearest multiple of \<open>1/100\<close>, a tie going to the even one.
\<close>

definition round2 :: "real \<Rightarrow> real" where
  "round2 x =
     (let y = x * 100; f = \<lfloor>y\<rfloor>; r = y - of_int f
      in of_int (if r < 1 / 2 then f else if 1 / 2 < r then f + 1
                 else if even f then f else f + 1) / 100)"

definition report_of :: "stats \<Rightarrow> report_entry" where
  "report_of st =
     (let efficiency = (if packages_delivered st > 0
                        then total_distance st / real (packages_delivered st) else 0)
      in \<lparr>r_packages_delivered = packages_delivered st,
          r_total_distance = round2 (total_distance st),
          r_efficiency = round2 efficiency\<rparr>)"

text \<open>The first loop of \<^verbatim>\<open>calculate_efficiency\<close>, over \<^verbatim>\<open>self.agent_stats.items()\<close>.\<close>

fun entries_loop ::
  "(string \<times> stats) list \<Rightarrow> (string \<times> report_entry) list \<Rightarrow> (string \<times> report_entry) list" where
  "entries_loop [] report = report"
| "entries_loop ((agent_id, st) # rest) report =
     entries_loop rest (AList.update agent_id (report_of st) report)"

text \<open>The second loop, over \<^verbatim>\<open>report.items()\<close>.\<close>

fun best_loop ::
  "(string \<times> report_entry) list \<Rightarrow> string option \<Rightarrow> real option \<Rightarrow> string option" where
  "best_loop [] best_agent best_efficiency = best_agent"
| "best_loop ((agent_id, e) # rest) best_agent best_efficiency =
     (if r_packages_delivered e > 0 \<and> less_min (r_efficiency e) best_efficiency
      then best_loop rest (Some agent_id) (Some (r_efficiency e))
      else best_loop rest best_agent best_efficiency)"

definition calculate_efficiency :: "system \<Rightarrow> (string \<times> report_value) list" where
  "calculate_efficiency s =
     (let report = entries_loop (agent_stats s) [];
          best_agent = best_loop report None None;
          report' = map (\<lambda>(k, e). (k, Entry e)) report
      in if truthy_id best_agent
         then AList.update ''best_agent'' (Designator (the best_agent)) report'
         else report')"

text \<open>
  The generator expression of \<^verbatim>\<open>generate_report\<close>: for every key other than
  \<^verbatim>\<open>'best_agent'\<close>, \<^verbatim>\<open>report[agent_id]['packages_delivered']\<close>; indexing a string with a
  string is a \<^verbatim>\<open>TypeError\<close>.
\<close>

fun sum_delivered :: "(string \<times> report_value) list \<Rightarrow> string list \<Rightarrow> error + nat" where
  "sum_delivered report [] = Inr 0"
| "sum_delivered report (agent_id # rest) =
     (if agent_id \<noteq> ''best_agent''
      then (case map_of report agent_id of
              None \<Rightarrow> Inl KeyError
            | Some (Designator b) \<Rightarrow> Inl TypeError
            | Some (Entry e) \<Rightarrow>
                (case sum_delivered report rest of
                   Inl x \<Rightarrow> Inl x
                 | Inr n \<Rightarrow> Inr (r_packages_delivered e + n)))
      else sum_delivered report rest)"

text \<open>
  \<^verbatim>\<open>generate_report\<close>: the report it returns, the total it prints, and whether it
  prints the warning.
\<close>

definition generate_report :: "system \<Rightarrow> error + ((string \<times> report_value) list \<times> nat \<times> bool)" where
  "generate_report s =
     (let report = calculate_efficiency s
      in case sum_delivered report (map fst report) of
           Inl e \<Rightarrow> Inl e
         | Inr total_delivered \<Rightarrow>
             Inr (report, total_delivered, total_delivered \<noteq> length (packages s)))"

section \<open>Notions used in the statements\<close>

text \<open>
  None of what follows is code of the source: these are the words in which the
  properties are stated, and the closed forms of the loops used to prove them.
\<close>

declare str_nat.simps [simp del]

text \<open>The package's warehouse reference is a key of the warehouse dict.\<close>

definition resolves :: "(string \<times> point) list \<Rightarrow> package \<Rightarrow> bool" where
  "resolves ws p = (case lookup_warehouse ws (warehouse p) of Inl e \<Rightarrow> False | Inr loc \<Rightarrow> True)"

text \<open>
  The agent that \<^verbatim>\<open>find_nearest_agent\<close> returns for the package's warehouse, in the
  state \<open>s\<close>; \<open>None\<close> when there is no agent (or no such warehouse).
\<close>

definition chosen :: "system \<Rightarrow> package \<Rightarrow> string option" where
  "chosen s p =
     (case lookup_warehouse (warehouses s) (warehouse p) of
        Inl e \<Rightarrow> None
      | Inr loc \<Rightarrow> (case find_nearest_agent s loc None of Inl e \<Rightarrow> None | Inr r \<Rightarrow> r))"

text \<open>The distance from an agent's tracked location to a point.\<close>

definition agent_distance :: "system \<Rightarrow> point \<Rightarrow> string \<Rightarrow> real" where
  "agent_distance s w a =
     (case map_of (agent_stats s) a of
        None \<Rightarrow> 0
      | Some st \<Rightarrow> calculate_distance (current_location st) w)"

text \<open>
  The state of the stats after loading: the agents form a dict, and every agent has
  fresh stats at its location, in the agents' order.
\<close>

definition fresh_system :: "system \<Rightarrow> bool" where
  "fresh_system s \<longleftrightarrow>
     distinct (map fst (agents s)) \<and>
     agent_stats s = map (\<lambda>(a, loc). (a, fresh_stats loc)) (agents s)"



text \<open>The distinct elements of a list, in the order of their first occurrence.\<close>

fun first_seen :: "'a list \<Rightarrow> 'a list" where
  "first_seen [] = []"
| "first_seen (x # xs) = x # first_seen (filter (\<lambda>y. y \<noteq> x) xs)"

text \<open>
  The grouping as the specification words it: a stable partition of the agent's packages
  by warehouse identifier, the groups in the order in which each warehouse is first met.
\<close>

definition spec_groups :: "package list \<Rightarrow> (pyval \<times> package list) list" where
  "spec_groups pkgs =
     map (\<lambda>w. (w, filter (\<lambda>p. warehouse p = w) pkgs)) (first_seen (map warehouse pkgs))"

text \<open>The location a warehouse reference resolves to.\<close>

definition location_of :: "(string \<times> point) list \<Rightarrow> pyval \<Rightarrow> point" where
  "location_of ws w = projr (lookup_warehouse ws w)"

text \<open>
  The stops of a route, as the specification words them: for every group, the warehouse,
  then the destination of each package of the group, in order.
\<close>

definition waypoints :: "(string \<times> point) list \<Rightarrow> (pyval \<times> package list) list \<Rightarrow> (point \<times> step_kind) list" where
  "waypoints ws groups =
     concat (map (\<lambda>(w, ps). (location_of ws w, to_warehouse) # map (\<lambda>p. (destination p, delivery)) ps)
               groups)"

text \<open>
  The legs of a walk through a list of stops: each leg starts where the previous one
  ended, and its recorded distance is the raw distance times the multiplier drawn for it.
\<close>

fun walk :: "(nat \<Rightarrow> real) \<Rightarrow> bool \<Rightarrow> point \<Rightarrow> nat \<Rightarrow> (point \<times> step_kind) list \<Rightarrow> route_step list" where
  "walk rnd en cur n [] = []"
| "walk rnd en cur n ((q, k) # rest) =
     \<lparr>step_from = cur, step_to = q,
      step_distance = calculate_distance cur q * fst (simulate_random_delay rnd en n),
      step_type = k\<rparr> # walk rnd en q (snd (simulate_random_delay rnd en n)) rest"

text \<open>Where a walk ends, and the generator's position after \<open>k\<close> legs.\<close>

definition endpoint :: "point \<Rightarrow> (point \<times> step_kind) list \<Rightarrow> point" where
  "endpoint cur stops = last (cur # map fst stops)"

definition advance :: "bool \<Rightarrow> nat \<Rightarrow> nat \<Rightarrow> nat" where
  "advance en n k = (if en then n + k else n)"

text \<open>The route of an agent that starts at \<open>cur\<close> with the packages \<open>pkgs\<close> assigned.\<close>

definition spec_route ::
  "(nat \<Rightarrow> real) \<Rightarrow> bool \<Rightarrow> (string \<times> point) list \<Rightarrow> point \<Rightarrow> nat \<Rightarrow> package list \<Rightarrow> route_step list" where
  "spec_route rnd en ws cur n pkgs = walk rnd en cur n (waypoints ws (spec_groups pkgs))"

text \<open>The stats of an agent after its route.\<close>

definition serve ::
  "(nat \<Rightarrow> real) \<Rightarrow> bool \<Rightarrow> (string \<times> point) list \<Rightarrow> nat \<Rightarrow> stats \<Rightarrow> package list \<Rightarrow> stats" where
  "serve rnd en ws n st pkgs =
     \<lparr>packages_delivered = packages_delivered st + length pkgs,
      total_distance = total_distance st +
        sum_list (map step_distance (spec_route rnd en ws (current_location st) n pkgs)),
      current_location = endpoint (current_location st) (waypoints ws (spec_groups pkgs)),
      route_history = route_history st @ spec_route rnd en ws (current_location st) n pkgs\<rparr>"

text \<open>The number of legs of that route: one per warehouse group and one per package.\<close>

definition legs :: "package list \<Rightarrow> nat" where
  "legs pkgs = length (spec_groups pkgs) + length pkgs"



text \<open>The state in which the assignment runs: the flag stored, the new agent added.\<close>

definition prepared :: "(nat \<Rightarrow> real) \<Rightarrow> bool \<Rightarrow> bool \<Rightarrow> system \<Rightarrow> system" where
  "prepared rnd en mid s =
     (if mid then add_new_agent_mid_day rnd (s\<lparr>enable_random_delays := en\<rparr>)
      else s\<lparr>enable_random_delays := en\<rparr>)"

text \<open>The packages whose nearest agent is \<open>a\<close>, less those that the guard drops.\<close>

definition assigned :: "system \<Rightarrow> string \<Rightarrow> package list" where
  "assigned s a = filter (\<lambda>p. chosen s p = Some a \<and> a \<noteq> []) (packages s)"




text \<open>The per-agent entries of the report, before the designator is stored.\<close>

definition entries :: "system \<Rightarrow> (string \<times> report_entry) list" where
  "entries s = map (\<lambda>(a, st). (a, report_of st)) (agent_stats s)"


text \<open>The per-agent entries as values of the report dict.\<close>

definition agent_entries :: "system \<Rightarrow> (string \<times> report_value) list" where
  "agent_entries s = map (\<lambda>(a, st). (a, Entry (report_of st))) (agent_stats s)"

text \<open>The delivered counts of all agents but one named \<^verbatim>\<open>best_agent\<close>.\<close>

definition delivered_but_best_agent :: "system \<Rightarrow> nat" where
  "delivered_but_best_agent s =
     sum_list (map (\<lambda>(a, st). if a = ''best_agent'' then 0 else packages_delivered st) (agent_stats s))"

text \<open>The catalog of the specification's worked example.\<close>

definition example_catalog :: json_data where
  "example_catalog =
     \<lparr>j_warehouses = Some (AsDict [(''W1'', (0, 0))]),
      j_agents = Some (AsDict [(''A1'', (0, 0)), (''A2'', (10, 10))]),
      j_packages = Some [\<lparr>f_id = Some (PStr ''P1''), f_warehouse_id = None,
                           f_warehouse = Some (PStr ''W1''), f_destination = Some (5, 5)\<rparr>]\<rparr>"

section \<open>Properties of the loops\<close>

subsection \<open>Association lists\<close>

lemma update_absent: "k \<notin> fst ` set al \<Longrightarrow> AList.update k v al = al @ [(k, v)]"
  by (induction al) auto



lemma map_of_map_values:
  "map_of (map (\<lambda>(a, x). (a, f x)) al) k = map_option f (map_of al k)"
  by (induction al) auto

lemma insert_all_distinct: "distinct (map fst d) \<Longrightarrow> distinct (map fst (insert_all d xs))"
  by (induction d xs rule: insert_all.induct) (simp_all add: distinct_update)


lemma parse_warehouses_distinct: "distinct (map fst (parse_warehouses x))"
  by (cases x) (simp_all add: insert_all_distinct)





subsection \<open>Nearest agent\<close>

lemma less_min_trans: "a < b \<Longrightarrow> less_min b m \<Longrightarrow> less_min a m"
  by (cases m) auto

lemma less_min_not: "less_min a m \<Longrightarrow> \<not> less_min b m \<Longrightarrow> a < b"
  by (cases m) auto

lemma nearest_loop_first_min:
  assumes "set ks \<subseteq> dom (map_of st)"
  shows "\<exists>r. nearest_loop st w ks na md = Inr r \<and>
     ((r = na \<and> (\<forall>x\<in>set ks. \<not> less_min (calculate_distance (current_location (the (map_of st x))) w) md)) \<or>
      (\<exists>pre a post. ks = pre @ a # post \<and> r = Some a \<and>
         less_min (calculate_distance (current_location (the (map_of st a))) w) md \<and>
         (\<forall>x\<in>set pre. calculate_distance (current_location (the (map_of st a))) w
                        < calculate_distance (current_location (the (map_of st x))) w) \<and>
         (\<forall>x\<in>set post. calculate_distance (current_location (the (map_of st a))) w
                        \<le> calculate_distance (current_location (the (map_of st x))) w)))"
  using assms
proof (induction ks arbitrary: na md)
  case Nil
  then show ?case by simp
next
  case (Cons k ks)
  let ?dk = "\<lambda>x. calculate_distance (current_location (the (map_of st x))) w"
  from Cons.prems obtain s where s: "map_of st k = Some s" by auto
  have sub: "set ks \<subseteq> dom (map_of st)" using Cons.prems by auto
  show ?case
  proof (cases "less_min (?dk k) md")
    case True
    from Cons.IH [OF sub, of "Some k" "Some (?dk k)"]
    obtain r where r: "nearest_loop st w ks (Some k) (Some (?dk k)) = Inr r"
      and alt: "(r = Some k \<and> (\<forall>x\<in>set ks. \<not> less_min (?dk x) (Some (?dk k)))) \<or>
        (\<exists>pre a post. ks = pre @ a # post \<and> r = Some a \<and> less_min (?dk a) (Some (?dk k)) \<and>
           (\<forall>x\<in>set pre. ?dk a < ?dk x) \<and> (\<forall>x\<in>set post. ?dk a \<le> ?dk x))"
      by blast
    have run: "nearest_loop st w (k # ks) na md = Inr r"
      using s True r by simp
    from alt show ?thesis
    proof
      assume a: "r = Some k \<and> (\<forall>x\<in>set ks. \<not> less_min (?dk x) (Some (?dk k)))"
      then have "k # ks = [] @ k # ks \<and> r = Some k \<and> less_min (?dk k) md \<and>
          (\<forall>x\<in>set []. ?dk k < ?dk x) \<and> (\<forall>x\<in>set ks. ?dk k \<le> ?dk x)"
        using True by auto
      then show ?thesis using run by blast
    next
      assume "\<exists>pre a post. ks = pre @ a # post \<and> r = Some a \<and> less_min (?dk a) (Some (?dk k)) \<and>
           (\<forall>x\<in>set pre. ?dk a < ?dk x) \<and> (\<forall>x\<in>set post. ?dk a \<le> ?dk x)"
      then obtain pre a post where p: "ks = pre @ a # post" "r = Some a" "?dk a < ?dk k"
        "\<forall>x\<in>set pre. ?dk a < ?dk x" "\<forall>x\<in>set post. ?dk a \<le> ?dk x"
        by auto
      have "k # ks = (k # pre) @ a # post \<and> r = Some a \<and> less_min (?dk a) md \<and>
          (\<forall>x\<in>set (k # pre). ?dk a < ?dk x) \<and> (\<forall>x\<in>set post. ?dk a \<le> ?dk x)"
        using p True less_min_trans by auto
      then show ?thesis using run by blast
    qed
  next
    case False
    from Cons.IH [OF sub, of na md]
    obtain r where r: "nearest_loop st w ks na md = Inr r"
      and alt: "(r = na \<and> (\<forall>x\<in>set ks. \<not> less_min (?dk x) md)) \<or>
        (\<exists>pre a post. ks = pre @ a # post \<and> r = Some a \<and> less_min (?dk a) md \<and>
           (\<forall>x\<in>set pre. ?dk a < ?dk x) \<and> (\<forall>x\<in>set post. ?dk a \<le> ?dk x))"
      by blast
    have run: "nearest_loop st w (k # ks) na md = Inr r"
      using s False r by simp
    from alt show ?thesis
    proof
      assume "r = na \<and> (\<forall>x\<in>set ks. \<not> less_min (?dk x) md)"
      then show ?thesis using run False by auto
    next
      assume "\<exists>pre a post. ks = pre @ a # post \<and> r = Some a \<and> less_min (?dk a) md \<and>
           (\<forall>x\<in>set pre. ?dk a < ?dk x) \<and> (\<forall>x\<in>set post. ?dk a \<le> ?dk x)"
      then obtain pre a post where p: "ks = pre @ a # post" "r = Some a" "less_min (?dk a) md"
        "\<forall>x\<in>set pre. ?dk a < ?dk x" "\<forall>x\<in>set post. ?dk a \<le> ?dk x"
        by auto
      have "?dk a < ?dk k" using p(3) False by (rule less_min_not)
      then have "k # ks = (k # pre) @ a # post \<and> r = Some a \<and> less_min (?dk a) md \<and>
          (\<forall>x\<in>set (k # pre). ?dk a < ?dk x) \<and> (\<forall>x\<in>set post. ?dk a \<le> ?dk x)"
        using p by auto
      then show ?thesis using run by blast
    qed
  qed
qed

text \<open>On a system whose agents all have stats, the scan returns the first nearest agent.\<close>

lemma find_nearest_agent_first_min:
  assumes "fst ` set (agents s) \<subseteq> dom (map_of (agent_stats s))"
  shows "\<exists>r. find_nearest_agent s w None = Inr r \<and>
     ((r = None \<and> agents s = []) \<or>
      (\<exists>pre a post. map fst (agents s) = pre @ a # post \<and> r = Some a \<and>
         (\<forall>x\<in>set pre. agent_distance s w a < agent_distance s w x) \<and>
         (\<forall>x\<in>set post. agent_distance s w a \<le> agent_distance s w x)))"
proof -
  have sub: "set (map fst (agents s)) \<subseteq> dom (map_of (agent_stats s))" using assms by simp
  have ad: "agent_distance s w x = calculate_distance (current_location (the (map_of (agent_stats s) x))) w"
    if "x \<in> set (map fst (agents s))" for x
    using that sub by (auto simp: agent_distance_def split: option.splits)
  from nearest_loop_first_min [OF sub, of w None None]
  obtain r where r: "nearest_loop (agent_stats s) w (map fst (agents s)) None None = Inr r"
    and alt: "(r = None \<and> (\<forall>x\<in>set (map fst (agents s)). False)) \<or>
      (\<exists>pre a post. map fst (agents s) = pre @ a # post \<and> r = Some a \<and>
         (\<forall>x\<in>set pre. calculate_distance (current_location (the (map_of (agent_stats s) a))) w
                        < calculate_distance (current_location (the (map_of (agent_stats s) x))) w) \<and>
         (\<forall>x\<in>set post. calculate_distance (current_location (the (map_of (agent_stats s) a))) w
                        \<le> calculate_distance (current_location (the (map_of (agent_stats s) x))) w))"
    by auto
  have run: "find_nearest_agent s w None = Inr r" using r by (simp add: find_nearest_agent_def)
  from alt show ?thesis
  proof
    assume "r = None \<and> (\<forall>x\<in>set (map fst (agents s)). False)"
    then show ?thesis using run by auto
  next
    assume "\<exists>pre a post. map fst (agents s) = pre @ a # post \<and> r = Some a \<and>
         (\<forall>x\<in>set pre. calculate_distance (current_location (the (map_of (agent_stats s) a))) w
                        < calculate_distance (current_location (the (map_of (agent_stats s) x))) w) \<and>
         (\<forall>x\<in>set post. calculate_distance (current_location (the (map_of (agent_stats s) a))) w
                        \<le> calculate_distance (current_location (the (map_of (agent_stats s) x))) w)"
    then obtain pre a post where p: "map fst (agents s) = pre @ a # post" "r = Some a"
      "\<forall>x\<in>set pre. calculate_distance (current_location (the (map_of (agent_stats s) a))) w
                        < calculate_distance (current_location (the (map_of (agent_stats s) x))) w"
      "\<forall>x\<in>set post. calculate_distance (current_location (the (map_of (agent_stats s) a))) w
                        \<le> calculate_distance (current_location (the (map_of (agent_stats s) x))) w"
      by blast
    have mem: "a \<in> set (map fst (agents s))" "set pre \<subseteq> set (map fst (agents s))"
      "set post \<subseteq> set (map fst (agents s))"
      using p(1) by auto
    have "(\<forall>x\<in>set pre. agent_distance s w a < agent_distance s w x) \<and>
         (\<forall>x\<in>set post. agent_distance s w a \<le> agent_distance s w x)"
      using p(3,4) mem ad by (metis subsetD)
    then show ?thesis using run p(1,2) by blast
  qed
qed


lemma find_nearest_agent_mem:
  assumes "fst ` set (agents s) \<subseteq> dom (map_of (agent_stats s))"
  shows "\<exists>r. find_nearest_agent s w None = Inr r \<and>
     (r = None \<or> (\<exists>a. r = Some a \<and> a \<in> set (map fst (agents s))))"
proof -
  from find_nearest_agent_first_min [OF assms, of w]
  obtain r where r: "find_nearest_agent s w None = Inr r"
    and alt: "r = None \<or> (\<exists>pre a post. map fst (agents s) = pre @ a # post \<and> r = Some a)"
    by blast
  from alt have "r = None \<or> (\<exists>a. r = Some a \<and> a \<in> set (map fst (agents s)))"
  proof
    assume "r = None" then show ?thesis by simp
  next
    assume "\<exists>pre a post. map fst (agents s) = pre @ a # post \<and> r = Some a"
    then obtain pre a post where "map fst (agents s) = pre @ a # post" "r = Some a" by blast
    then have "r = Some a \<and> a \<in> set (map fst (agents s))" by simp
    then show ?thesis by blast
  qed
  with r show ?thesis by blast
qed

subsection \<open>Assignment\<close>

lemma map_update_cong:
  "distinct (map fst al) \<Longrightarrow> map_of al k = Some x \<Longrightarrow> F (k, v) = G (k, x) \<Longrightarrow>
   (\<forall>y\<in>set al. fst y \<noteq> k \<longrightarrow> F y = G y) \<Longrightarrow> map F (AList.update k v al) = map G al"
proof (induction al)
  case Nil
  then show ?case by simp
next
  case (Cons y al)
  show ?case
  proof (cases "fst y = k")
    case True
    then have "y = (k, x)" using Cons.prems(2) by (cases y) auto
    moreover have "\<forall>z\<in>set al. fst z \<noteq> k" using Cons.prems(1) True by (auto simp: rev_image_eqI)
    ultimately show ?thesis using Cons.prems(3,4) True by auto
  next
    case False
    then show ?thesis using Cons by auto
  qed
qed

lemma chosen_eq:
  "lookup_warehouse (warehouses s) (warehouse p) = Inr loc \<Longrightarrow> find_nearest_agent s loc None = Inr r \<Longrightarrow>
   chosen s p = r"
  by (simp add: chosen_def)

lemma assign_loop_closed:
  assumes "fst ` set (agents s) \<subseteq> dom (map_of (agent_stats s))"
    and "\<forall>p\<in>set ps. resolves (warehouses s) p"
    and "map fst acc = map fst (agents s)"
    and "distinct (map fst acc)"
  shows "assign_loop s ps acc =
         Inr (map (\<lambda>(a, l). (a, l @ filter (\<lambda>p. chosen s p = Some a \<and> a \<noteq> []) ps)) acc)"
  using assms(2-4)
proof (induction ps arbitrary: acc)
  case Nil
  then show ?case by simp
next
  case (Cons p ps)
  from Cons.prems(1) obtain loc where loc: "lookup_warehouse (warehouses s) (warehouse p) = Inr loc"
    by (auto simp: resolves_def split: sum.splits)
  from find_nearest_agent_mem [OF assms(1), of loc]
  obtain r where r: "find_nearest_agent s loc None = Inr r"
    and mem: "r = None \<or> (\<exists>a. r = Some a \<and> a \<in> set (map fst (agents s)))"
    by blast
  have ch: "chosen s p = r" using loc r by (rule chosen_eq)
  have rest: "\<forall>p\<in>set ps. resolves (warehouses s) p" using Cons.prems(1) by simp
  show ?case
  proof (cases "truthy_id r")
    case True
    then obtain a where a: "r = Some a" "a \<noteq> []" by (cases r) auto
    with mem have amem: "a \<in> set (map fst acc)" using Cons.prems(2) by auto
    then obtain l where l: "map_of acc a = Some l"
      by (metis (no_types, lifting) domD dom_map_of_conv_image_fst list.set_map)
    let ?acc' = "AList.update a (l @ [p]) acc"
    have k: "map fst ?acc' = map fst (agents s)"
      using amem Cons.prems(2) by (simp add: update_keys)
    have d: "distinct (map fst ?acc')" using Cons.prems(3) by (rule distinct_update)
    have "assign_loop s ps ?acc' =
          Inr (map (\<lambda>(a, l). (a, l @ filter (\<lambda>p. chosen s p = Some a \<and> a \<noteq> []) ps)) ?acc')"
      using rest k d by (rule Cons.IH)
    moreover have "map (\<lambda>(a, l). (a, l @ filter (\<lambda>p. chosen s p = Some a \<and> a \<noteq> []) ps)) ?acc' =
          map (\<lambda>(a, l). (a, l @ filter (\<lambda>p. chosen s p = Some a \<and> a \<noteq> []) (p # ps))) acc"
      using Cons.prems(3) l
    proof (rule map_update_cong)
      show "(case (a, l @ [p]) of (a, l) \<Rightarrow> (a, l @ filter (\<lambda>p. chosen s p = Some a \<and> a \<noteq> []) ps)) =
            (case (a, l) of (a, l) \<Rightarrow> (a, l @ filter (\<lambda>p. chosen s p = Some a \<and> a \<noteq> []) (p # ps)))"
        using ch a by simp
      show "\<forall>y\<in>set acc. fst y \<noteq> a \<longrightarrow>
          (case y of (a, l) \<Rightarrow> (a, l @ filter (\<lambda>p. chosen s p = Some a \<and> a \<noteq> []) ps)) =
          (case y of (a, l) \<Rightarrow> (a, l @ filter (\<lambda>p. chosen s p = Some a \<and> a \<noteq> []) (p # ps)))"
        using ch a by auto
    qed
    ultimately show ?thesis using loc r True a l by simp
  next
    case False
    have "assign_loop s ps acc =
          Inr (map (\<lambda>(a, l). (a, l @ filter (\<lambda>p. chosen s p = Some a \<and> a \<noteq> []) ps)) acc)"
      using rest Cons.prems(2,3) by (rule Cons.IH)
    moreover have "\<not> (chosen s p = Some a \<and> a \<noteq> [])" for a
      using False ch by (cases r) auto
    then have "filter (\<lambda>p. chosen s p = Some a \<and> a \<noteq> []) (p # ps) =
               filter (\<lambda>p. chosen s p = Some a \<and> a \<noteq> []) ps" for a
      by simp
    ultimately show ?thesis using loc r False by (simp del: filter.simps)
  qed
qed

lemma assign_packages_closed:
  assumes "fst ` set (agents s) \<subseteq> dom (map_of (agent_stats s))"
    and "\<forall>p\<in>set (packages s). resolves (warehouses s) p"
    and "distinct (map fst (agents s))"
  shows "assign_packages_to_agents s =
         Inr (map (\<lambda>a. (a, filter (\<lambda>p. chosen s p = Some a \<and> a \<noteq> []) (packages s))) (map fst (agents s)))"
proof -
  have "assign_loop s (packages s) (map (\<lambda>agent_id. (agent_id, [])) (map fst (agents s))) =
        Inr (map (\<lambda>(a, l). (a, l @ filter (\<lambda>p. chosen s p = Some a \<and> a \<noteq> []) (packages s)))
               (map (\<lambda>agent_id. (agent_id, [])) (map fst (agents s))))"
    using assms by (intro assign_loop_closed) (simp_all add: comp_def)
  then show ?thesis by (simp add: assign_packages_to_agents_def comp_def)
qed


subsection \<open>Parsing\<close>

lemma parse_packages_length: "parse_packages ps = Inr qs \<Longrightarrow> length qs = length ps"
  by (induction ps arbitrary: qs) (auto split: sum.splits)

lemma parse_packages_nth:
  "parse_packages ps = Inr qs \<Longrightarrow> i < length ps \<Longrightarrow> parse_package (ps ! i) = Inr (qs ! i)"
proof (induction ps arbitrary: qs i)
  case Nil
  then show ?case by simp
next
  case (Cons p ps)
  then show ?case by (cases i) (auto split: sum.splits)
qed

lemma parse_package_warehouse:
  "parse_package p = Inr q \<Longrightarrow>
   warehouse q = py_or (dict_get (f_warehouse_id p)) (dict_get (f_warehouse p))"
  by (auto simp: parse_package_def split: option.splits)





lemma fresh_system_dom: "fresh_system s \<Longrightarrow> fst ` set (agents s) \<subseteq> dom (map_of (agent_stats s))"
  by (auto simp: fresh_system_def map_of_map_values dom_def map_of_eq_None_iff [symmetric]
      simp del: map_of_eq_None_iff) (metis domD domI dom_map_of_conv_image_fst image_eqI fst_conv)


lemma fresh_system_distinct: "fresh_system s \<Longrightarrow> distinct (map fst (agents s))"
  by (simp add: fresh_system_def)



lemma add_new_agent_same:
  "packages (add_new_agent_mid_day rnd s) = packages s"
  "warehouses (add_new_agent_mid_day rnd s) = warehouses s"
  "enable_random_delays (add_new_agent_mid_day rnd s) = enable_random_delays s"
  by (simp_all add: add_new_agent_mid_day_def Let_def)




subsection \<open>Grouping\<close>

lemma first_seen_set [simp]: "set (first_seen xs) = set xs"
proof (induction xs rule: first_seen.induct)
  case 1
  then show ?case by simp
next
  case (2 x xs)
  then show ?case by auto
qed

lemma first_seen_distinct [simp]: "distinct (first_seen xs)"
  by (induction xs rule: first_seen.induct) auto

lemma spec_groups_Nil [simp]: "spec_groups [] = []"
  by (simp add: spec_groups_def)





subsection \<open>Walks\<close>


lemma advance_0 [simp]: "advance en n 0 = n"
  by (simp add: advance_def)

lemma advance_advance [simp]: "advance en (advance en n j) k = advance en n (j + k)"
  by (simp add: advance_def)

lemma endpoint_Nil [simp]: "endpoint cur [] = cur"
  by (simp add: endpoint_def)

lemma endpoint_Cons [simp]: "endpoint cur ((q, k) # rest) = endpoint q rest"
  by (simp add: endpoint_def)

lemma endpoint_append [simp]: "endpoint cur (xs @ ys) = endpoint (endpoint cur xs) ys"
  by (induction xs arbitrary: cur) auto


lemma walk_length [simp]: "length (walk rnd en cur n xs) = length xs"
  by (induction xs arbitrary: cur n) auto

lemma waypoints_Nil [simp]: "waypoints ws [] = []"
  by (simp add: waypoints_def)



subsection \<open>The inner loops\<close>



subsection \<open>One agent\<close>




lemma serve_Nil [simp]: "serve rnd en ws n st [] = st"
  by (simp add: serve_def spec_route_def)

lemma legs_Nil [simp]: "legs [] = 0"
  by (simp add: legs_def)

lemma resolvesD: "resolves ws p \<Longrightarrow> \<exists>loc. lookup_warehouse ws (warehouse p) = Inr loc"
  by (cases "lookup_warehouse ws (warehouse p)") (simp_all add: resolves_def)



subsection \<open>All agents\<close>


subsection \<open>The whole simulation\<close>


lemma prepared_same [simp]:
  "packages (prepared rnd en mid s) = packages s"
  "warehouses (prepared rnd en mid s) = warehouses s"
  "enable_random_delays (prepared rnd en mid s) = en"
  by (simp_all add: prepared_def add_new_agent_same)


lemma assign_fresh:
  assumes "fresh_system s" and "\<forall>p\<in>set (packages s). resolves (warehouses s) p"
  shows "assign_packages_to_agents s = Inr (map (\<lambda>a. (a, assigned s a)) (map fst (agents s)))"
  unfolding assigned_def
  using assms by (intro assign_packages_closed fresh_system_dom fresh_system_distinct)


subsection \<open>Properties of the served agents\<close>








subsection \<open>The report\<close>

lemma entries_loop_closed:
  "distinct (map fst sts) \<Longrightarrow> fst ` set sts \<inter> fst ` set acc = {} \<Longrightarrow>
   entries_loop sts acc = acc @ map (\<lambda>(a, st). (a, report_of st)) sts"
proof (induction sts arbitrary: acc)
  case Nil
  then show ?case by simp
next
  case (Cons x sts)
  obtain a st where x: "x = (a, st)" by (cases x)
  have notin: "a \<notin> fst ` set acc" using Cons.prems(2) x by auto
  have "entries_loop sts (acc @ [(a, report_of st)]) =
        (acc @ [(a, report_of st)]) @ map (\<lambda>(a, st). (a, report_of st)) sts"
    using Cons.prems x by (intro Cons.IH) (auto simp: rev_image_eqI)
  then show ?case using notin by (simp add: x update_absent)
qed

lemma entries_loop_entries:
  "distinct (map fst (agent_stats s)) \<Longrightarrow> entries_loop (agent_stats s) [] = entries s"
  using entries_loop_closed [of "agent_stats s" "[]"] by (simp add: entries_def)


lemma calculate_efficiency_closed:
  assumes "distinct (map fst (agent_stats s))"
  shows "calculate_efficiency s =
     (if truthy_id (best_loop (entries s) None None)
      then AList.update ''best_agent'' (Designator (the (best_loop (entries s) None None)))
             (map (\<lambda>(k, e). (k, Entry e)) (entries s))
      else map (\<lambda>(k, e). (k, Entry e)) (entries s))"
  by (simp add: calculate_efficiency_def entries_loop_entries [OF assms] Let_def)

subsection \<open>The completeness sum\<close>

lemma agent_entries_entries: "map (\<lambda>(k, e). (k, Entry e)) (entries s) = agent_entries s"
  by (simp add: entries_def agent_entries_def case_prod_unfold)

lemma agent_entries_keys [simp]: "map fst (agent_entries s) = map fst (agent_stats s)"
  by (simp add: agent_entries_def case_prod_unfold)

lemma map_of_agent_entries:
  "map_of (agent_entries s) k = map_option (\<lambda>st. Entry (report_of st)) (map_of (agent_stats s) k)"
  unfolding agent_entries_def by (rule map_of_map_values)

lemma calculate_efficiency_cases:
  assumes "distinct (map fst (agent_stats s))"
  shows "calculate_efficiency s = agent_entries s \<or>
         (\<exists>b. b \<noteq> [] \<and> best_loop (entries s) None None = Some b \<and>
              calculate_efficiency s = AList.update ''best_agent'' (Designator b) (agent_entries s))"
proof (cases "truthy_id (best_loop (entries s) None None)")
  case True
  then obtain b where "best_loop (entries s) None None = Some b" "b \<noteq> []"
    by (cases "best_loop (entries s) None None") auto
  then show ?thesis
    using calculate_efficiency_closed [OF assms] by (simp add: agent_entries_entries)
next
  case False
  then show ?thesis
    using calculate_efficiency_closed [OF assms] by (simp add: agent_entries_entries)
qed

lemma calculate_efficiency_lookup:
  assumes "distinct (map fst (agent_stats s))" and "k \<noteq> ''best_agent''"
  shows "map_of (calculate_efficiency s) k = map_option (\<lambda>st. Entry (report_of st)) (map_of (agent_stats s) k)"
  using calculate_efficiency_cases [OF assms(1)] assms(2)
  by (auto simp: update_conv' map_of_agent_entries)

lemma sum_delivered_closed:
  assumes "\<forall>k\<in>set ks. k \<noteq> ''best_agent'' \<longrightarrow> (\<exists>e. map_of r k = Some (Entry e))"
  shows "sum_delivered r ks =
     Inr (sum_list (map (\<lambda>k. if k = ''best_agent'' then 0
                             else (case map_of r k of Some (Entry e) \<Rightarrow> r_packages_delivered e | _ \<Rightarrow> 0)) ks))"
  using assms
proof (induction ks)
  case Nil
  then show ?case by simp
next
  case (Cons k ks)
  then have ih: "sum_delivered r ks =
     Inr (sum_list (map (\<lambda>k. if k = ''best_agent'' then 0
                             else (case map_of r k of Some (Entry e) \<Rightarrow> r_packages_delivered e | _ \<Rightarrow> 0)) ks))"
    by simp
  show ?case
  proof (cases "k = ''best_agent''")
    case True
    then show ?thesis using ih by simp
  next
    case False
    with Cons.prems obtain e where "map_of r k = Some (Entry e)" by auto
    then show ?thesis using ih False by simp
  qed
qed

lemma sum_keys_values:
  "distinct (map fst l) \<Longrightarrow>
   map (\<lambda>k. g k (map_of l k)) (map fst l) = map (\<lambda>(k, v). g k (Some v)) l"
proof (induction l)
  case Nil
  then show ?case by simp
next
  case (Cons x l)
  obtain a v where x: "x = (a, v)" by (cases x)
  have "map (\<lambda>k. g k (map_of (x # l) k)) (map fst l) = map (\<lambda>k. g k (map_of l k)) (map fst l)"
    using Cons.prems x by (intro map_cong) auto
  then show ?case using Cons x by simp
qed

lemma report_total:
  assumes "distinct (map fst (agent_stats s))"
  shows "sum_delivered (calculate_efficiency s) (map fst (calculate_efficiency s)) =
         Inr (delivered_but_best_agent s)"
proof -
  define r where "r = calculate_efficiency s"
  define g where "g = (\<lambda>k v. if k = ''best_agent'' then 0
       else (case map_option (\<lambda>st. Entry (report_of st)) v of
               Some (Entry e) \<Rightarrow> r_packages_delivered e | _ \<Rightarrow> 0))"
  have look: "map_of r k = map_option (\<lambda>st. Entry (report_of st)) (map_of (agent_stats s) k)"
    if "k \<noteq> ''best_agent''" for k
    unfolding r_def using assms that by (rule calculate_efficiency_lookup)
  have f: "(if k = ''best_agent'' then 0
            else (case map_of r k of Some (Entry e) \<Rightarrow> r_packages_delivered e | _ \<Rightarrow> 0)) =
           g k (map_of (agent_stats s) k)" for k
    using look [of k] by (simp add: g_def)
  have keys: "map fst r = map fst (agent_stats s) \<or> map fst r = map fst (agent_stats s) @ [''best_agent'']"
    using calculate_efficiency_cases [OF assms] by (auto simp: r_def update_keys split: if_splits)
  have ent: "\<forall>k\<in>set (map fst r). k \<noteq> ''best_agent'' \<longrightarrow> (\<exists>e. map_of r k = Some (Entry e))"
  proof (intro ballI impI)
    fix k assume k: "k \<in> set (map fst r)" "k \<noteq> ''best_agent''"
    from keys have "k \<in> set (map fst (agent_stats s))"
    proof
      assume "map fst r = map fst (agent_stats s)"
      with k(1) show ?thesis by simp
    next
      assume "map fst r = map fst (agent_stats s) @ [''best_agent'']"
      with k have "k \<in> set (map fst (agent_stats s) @ [''best_agent''])" by simp
      with k(2) show ?thesis by simp
    qed
    then obtain st where "map_of (agent_stats s) k = Some st"
      by (metis (no_types, lifting) domD dom_map_of_conv_image_fst list.set_map)
    then show "\<exists>e. map_of r k = Some (Entry e)" using look [OF k(2)] by simp
  qed
  have "sum_delivered r (map fst r) =
     Inr (sum_list (map (\<lambda>k. g k (map_of (agent_stats s) k)) (map fst r)))"
    using sum_delivered_closed [OF ent] by (simp only: f)
  also have "sum_list (map (\<lambda>k. g k (map_of (agent_stats s) k)) (map fst r)) =
             sum_list (map (\<lambda>k. g k (map_of (agent_stats s) k)) (map fst (agent_stats s)))"
  proof -
    have g0: "g ''best_agent'' v = 0" for v by (simp add: g_def)
    from keys show ?thesis
    proof
      assume "map fst r = map fst (agent_stats s)"
      then show ?thesis by (simp only:)
    next
      assume e: "map fst r = map fst (agent_stats s) @ [''best_agent'']"
      show ?thesis unfolding e by (simp add: g0)
    qed
  qed
  also have "map (\<lambda>k. g k (map_of (agent_stats s) k)) (map fst (agent_stats s)) =
             map (\<lambda>(k, v). g k (Some v)) (agent_stats s)"
    using assms by (rule sum_keys_values)
  also have "map (\<lambda>(k, v). g k (Some v)) (agent_stats s) =
      map (\<lambda>(a, st). if a = ''best_agent'' then 0 else packages_delivered st) (agent_stats s)"
    by (intro map_cong refl) (auto simp: g_def report_of_def Let_def)
  finally show ?thesis by (simp add: r_def delivered_but_best_agent_def)
qed

lemma generate_report_closed:
  assumes "distinct (map fst (agent_stats s))"
  shows "generate_report s =
         Inr (calculate_efficiency s, delivered_but_best_agent s,
              delivered_but_best_agent s \<noteq> length (packages s))"
  by (simp add: generate_report_def Let_def report_total [OF assms])

subsection \<open>The best agent\<close>

lemma round2_nearest: "\<bar>round2 x - x\<bar> \<le> 1 / 200 \<and> (\<exists>k::int. round2 x = of_int k / 100)"
proof -
  define y where "y = x * 100"
  define f where "f = \<lfloor>y\<rfloor>"
  have b: "of_int f \<le> y" "y < of_int f + 1" unfolding f_def by linarith+
  define k where "k = (if y - of_int f < 1 / 2 then f else if 1 / 2 < y - of_int f then f + 1
                 else if even f then f else f + 1)"
  have r: "round2 x = of_int k / 100"
    by (simp add: round2_def Let_def k_def y_def f_def)
  have "\<bar>of_int k - y\<bar> \<le> 1 / 2" using b by (auto simp: k_def)
  then have "\<bar>of_int k / 100 - x\<bar> \<le> 1 / 200" by (simp add: y_def field_simps abs_le_iff)
  then have "\<bar>round2 x - x\<bar> \<le> 1 / 200" unfolding r .
  moreover have "\<exists>k::int. round2 x = of_int k / 100" using r by blast
  ultimately show ?thesis by blast
qed

lemma report_of_delivered [simp]: "r_packages_delivered (report_of st) = packages_delivered st"
  by (simp add: report_of_def Let_def)


lemma set_update_subset: "set (AList.update k v al) \<subseteq> insert (k, v) (set al)"
  by (induction al) auto

lemma no_designator_in_entries: "(k, Designator b) \<notin> set (agent_entries s)"
  by (auto simp: agent_entries_def)

lemma best_designated:
  assumes "distinct (map fst (agent_stats s))"
    and "(''best_agent'', Designator b) \<in> set (calculate_efficiency s)"
  shows "b \<noteq> [] \<and> best_loop (entries s) None None = Some b \<and>
         calculate_efficiency s = AList.update ''best_agent'' (Designator b) (agent_entries s)"
proof -
  from calculate_efficiency_cases [OF assms(1)] show ?thesis
  proof
    assume "calculate_efficiency s = agent_entries s"
    with assms(2) show ?thesis using no_designator_in_entries by simp
  next
    assume "\<exists>b. b \<noteq> [] \<and> best_loop (entries s) None None = Some b \<and>
              calculate_efficiency s = AList.update ''best_agent'' (Designator b) (agent_entries s)"
    then obtain b' where b': "b' \<noteq> []" "best_loop (entries s) None None = Some b'"
      "calculate_efficiency s = AList.update ''best_agent'' (Designator b') (agent_entries s)"
      by blast
    with assms(2) have "(''best_agent'', Designator b) \<in> insert (''best_agent'', Designator b') (set (agent_entries s))"
      using set_update_subset by fastforce
    then have "b = b'" using no_designator_in_entries by auto
    with b' show ?thesis by simp
  qed
qed



subsection \<open>The dict invariant\<close>



subsection \<open>Counting the assigned packages\<close>




lemma new_agent_id: "''A'' @ n \<noteq> [] \<and> ''A'' @ n \<noteq> ''best_agent''"
  by simp





subsection \<open>Legs of a walk\<close>














subsection \<open>Bounds of a delayed leg\<close>



subsection \<open>The nearest agent receives the package\<close>

text \<open>
  On a fresh system whose agent identifiers are not empty, every package goes to the
  first of the agents nearest to its warehouse, and every agent's list keeps the order of
  the package list.
\<close>

lemma assignment_first_nearest:
  assumes "fresh_system s"
    and "\<forall>a\<in>fst ` set (agents s). a \<noteq> []"
    and "\<forall>p\<in>set (packages s). resolves (warehouses s) p"
  shows "assign_packages_to_agents s =
           Inr (map (\<lambda>a. (a, filter (\<lambda>p. chosen s p = Some a) (packages s))) (map fst (agents s))) \<and>
         (agents s \<noteq> [] \<longrightarrow>
           (\<forall>p\<in>set (packages s). \<exists>loc pre a post.
              lookup_warehouse (warehouses s) (warehouse p) = Inr loc \<and>
              map fst (agents s) = pre @ a # post \<and> chosen s p = Some a \<and>
              (\<forall>x\<in>set pre. agent_distance s loc a < agent_distance s loc x) \<and>
              (\<forall>x\<in>set post. agent_distance s loc a \<le> agent_distance s loc x)))"
proof (intro conjI impI ballI)
  have "map (\<lambda>a. (a, assigned s a)) (map fst (agents s)) =
        map (\<lambda>a. (a, filter (\<lambda>p. chosen s p = Some a) (packages s))) (map fst (agents s))"
    using assms(2) by (intro map_cong refl) (auto simp: assigned_def intro!: filter_cong)
  then show "assign_packages_to_agents s =
           Inr (map (\<lambda>a. (a, filter (\<lambda>p. chosen s p = Some a) (packages s))) (map fst (agents s)))"
    using assign_fresh [OF assms(1,3)] by simp
next
  fix p assume ne: "agents s \<noteq> []" and p: "p \<in> set (packages s)"
  from p assms(3) obtain loc where loc: "lookup_warehouse (warehouses s) (warehouse p) = Inr loc"
    using resolvesD by blast
  from find_nearest_agent_first_min [OF fresh_system_dom [OF assms(1)], of loc] ne
  obtain pre a post where n: "find_nearest_agent s loc None = Inr (Some a)"
    "map fst (agents s) = pre @ a # post"
    "\<forall>x\<in>set pre. agent_distance s loc a < agent_distance s loc x"
    "\<forall>x\<in>set post. agent_distance s loc a \<le> agent_distance s loc x"
    by auto
  have "chosen s p = Some a" using loc n(1) by (simp add: chosen_def)
  with loc n show "\<exists>loc pre a post.
              lookup_warehouse (warehouses s) (warehouse p) = Inr loc \<and>
              map fst (agents s) = pre @ a # post \<and> chosen s p = Some a \<and>
              (\<forall>x\<in>set pre. agent_distance s loc a < agent_distance s loc x) \<and>
              (\<forall>x\<in>set post. agent_distance s loc a \<le> agent_distance s loc x)"
    by blast
qed

subsection \<open>The mid-day agent\<close>

text \<open>
  When the identifier made from the agent count is not taken, one agent is added behind
  the others, with fresh stats, at a location in the square; the others and their stats
  are untouched. Without packages nothing changes.
\<close>

lemma uniform_range:
  assumes "0 \<le> rnd n" and "rnd n < 1"
  shows "0 \<le> uniform rnd n 0 100 \<and> uniform rnd n 0 100 < 100"
  using assms by (simp add: uniform_def)

lemma mid_day_agent_added:
  assumes "packages s \<noteq> []"
    and "''A'' @ str_nat (length (agents s) + 1) \<notin> fst ` set (agents s)"
    and "map fst (agent_stats s) = map fst (agents s)"
    and "\<forall>i. 0 \<le> rnd i \<and> rnd i < 1"
  shows "\<exists>x y. add_new_agent_mid_day rnd s =
           s\<lparr>agents := agents s @ [(''A'' @ str_nat (length (agents s) + 1), (x, y))],
             agent_stats := agent_stats s @
               [(''A'' @ str_nat (length (agents s) + 1),
                 \<lparr>packages_delivered = 0, total_distance = 0, current_location = (x, y),
                  route_history = []\<rparr>)],
             rng_pos := rng_pos s + 2\<rparr> \<and>
           0 \<le> x \<and> x < 100 \<and> 0 \<le> y \<and> y < 100"
proof -
  define k where "k = ''A'' @ str_nat (length (agents s) + 1)"
  define x where "x = uniform rnd (rng_pos s) 0 100"
  define y where "y = uniform rnd (rng_pos s + 1) 0 100"
  have n1: "k \<notin> fst ` set (agents s)" using assms(2) by (simp add: k_def)
  have "fst ` set (agent_stats s) = fst ` set (agents s)"
    using assms(3) by (metis list.set_map)
  with n1 have n2: "k \<notin> fst ` set (agent_stats s)" by simp
  have "add_new_agent_mid_day rnd s =
           s\<lparr>agents := AList.update k (x, y) (agents s),
             agent_stats := AList.update k (fresh_stats (x, y)) (agent_stats s),
             rng_pos := rng_pos s + 2\<rparr>"
    using assms(1) by (simp add: add_new_agent_mid_day_def Let_def k_def x_def y_def)
  then have "add_new_agent_mid_day rnd s =
           s\<lparr>agents := agents s @ [(k, (x, y))],
             agent_stats := agent_stats s @
               [(k, \<lparr>packages_delivered = 0, total_distance = 0, current_location = (x, y),
                  route_history = []\<rparr>)],
             rng_pos := rng_pos s + 2\<rparr>"
    unfolding update_absent [OF n1] update_absent [OF n2] fresh_stats_def .
  moreover have "0 \<le> x \<and> x < 100" "0 \<le> y \<and> y < 100"
    unfolding x_def y_def using assms(4) by (simp_all add: uniform_range)
  ultimately show ?thesis unfolding k_def by blast
qed

lemma mid_day_agent_absent:
  "packages s = [] \<Longrightarrow> add_new_agent_mid_day rnd s = s"
  "prepared rnd en False s = s\<lparr>enable_random_delays := en\<rparr>"
  by (simp_all add: add_new_agent_mid_day_def prepared_def)

subsection \<open>Worked examples\<close>

text \<open>The example catalog: the package goes to A1, at distance 0, not to A2.\<close>

lemma example_assignment:
  "(case init example_catalog of
      Inl e \<Rightarrow> None
    | Inr s \<Rightarrow> Some (assign_packages_to_agents s)) =
   Some (Inr [(''A1'', [\<lparr>pkg_id = PStr ''P1'', warehouse = PStr ''W1'', destination = (5, 5)\<rparr>]),
              (''A2'', [])])"
  by (simp add: example_catalog_def init_def parse_package_def dict_get_def py_or_def
      initialize_agent_stats_def fresh_stats_def assign_packages_to_agents_def
      find_nearest_agent_def)

text \<open>Two agents at the same distance from the warehouse: the earlier one receives.\<close>

lemma tie_goes_to_first_agent:
  "assign_packages_to_agents
     \<lparr>warehouses = [(''W1'', (0, 0))], agents = [(''B'', (3, 4)), (''A'', (4, 3))],
      packages = [\<lparr>pkg_id = PStr ''P1'', warehouse = PStr ''W1'', destination = (1, 1)\<rparr>],
      agent_stats = [(''B'', fresh_stats (3, 4)), (''A'', fresh_stats (4, 3))],
      enable_random_delays = False, rng_pos = 0\<rparr> =
   Inr [(''B'', [\<lparr>pkg_id = PStr ''P1'', warehouse = PStr ''W1'', destination = (1, 1)\<rparr>]), (''A'', [])]"
  by (simp add: fresh_stats_def assign_packages_to_agents_def find_nearest_agent_def)

text \<open>
  A mid-day agent whose identifier is free receives packages in the same run: with the
  only agent at \<open>(100, 100)\<close>, the warehouse at \<open>(50, 50)\<close> and both draws \<open>1/2\<close>,
  the new agent A2 stands at the warehouse and is given the package.
\<close>

lemma mid_day_agent_receives:
  "assign_packages_to_agents (prepared (\<lambda>i. 1 / 2) False True
     \<lparr>warehouses = [(''W1'', (50, 50))], agents = [(''A1'', (100, 100))],
      packages = [\<lparr>pkg_id = PStr ''P1'', warehouse = PStr ''W1'', destination = (1, 1)\<rparr>],
      agent_stats = [(''A1'', fresh_stats (100, 100))],
      enable_random_delays = False, rng_pos = 0\<rparr>) =
   Inr [(''A1'', []),
        (''A2'', [\<lparr>pkg_id = PStr ''P1'', warehouse = PStr ''W1'', destination = (1, 1)\<rparr>])]"
  by (simp add: prepared_def add_new_agent_mid_day_def uniform_def str_nat.simps digit_char_def
      fresh_stats_def assign_packages_to_agents_def find_nearest_agent_def Let_def)

section \<open>Claims\<close>

text \<open>
  C1 on the code: the guard \<^verbatim>\<open>if nearest_agent:\<close> of the assignment is false for the
  agent whose identifier is the empty string. In a catalog with the agents \<^verbatim>\<open>""\<close> at
  \<open>(0, 0)\<close> and \<^verbatim>\<open>A2\<close> at \<open>(10, 10)\<close> and one package from the warehouse at
  \<open>(0, 0)\<close>, the scan finds \<^verbatim>\<open>""\<close> as the nearest agent, and the assignment gives the
  package to no agent.
\<close>

theorem nearest_agent_with_empty_identifier:
  "(case init \<lparr>j_warehouses = Some (AsDict [(''W1'', (0, 0))]),
               j_agents = Some (AsDict [('''', (0, 0)), (''A2'', (10, 10))]),
               j_packages = Some [\<lparr>f_id = Some (PStr ''P1''), f_warehouse_id = None,
                                    f_warehouse = Some (PStr ''W1''), f_destination = Some (5, 5)\<rparr>]\<rparr> of
      Inl e \<Rightarrow> None
    | Inr s \<Rightarrow> Some (agents s, find_nearest_agent s (0, 0) None, assign_packages_to_agents s)) =
   Some ([('''', (0, 0)), (''A2'', (10, 10))], Inr (Some ''''), Inr [('''', []), (''A2'', [])])"
  by (simp add: init_def parse_package_def dict_get_def py_or_def initialize_agent_stats_def
      fresh_stats_def assign_packages_to_agents_def find_nearest_agent_def)












text \<open>
  C6 on the code: the identifier of the mid-day agent is \<^verbatim>\<open>A\<close> followed by the agent
  count plus one, which an agent can already carry. In a catalog whose only agent is
  \<^verbatim>\<open>A2\<close>, with one package, the identifier is \<^verbatim>\<open>A2\<close> again: no agent is added, and the
  existing agent is moved to the drawn location and its stats are replaced.
\<close>

theorem mid_day_agent_identifier_taken:
  "(case init \<lparr>j_warehouses = Some (AsDict [(''W1'', (0, 0))]),
               j_agents = Some (AsDict [(''A2'', (0, 0))]),
               j_packages = Some [\<lparr>f_id = Some (PStr ''P1''), f_warehouse_id = None,
                                    f_warehouse = Some (PStr ''W1''), f_destination = Some (5, 5)\<rparr>]\<rparr> of
      Inl e \<Rightarrow> None
    | Inr s \<Rightarrow> Some (agents s, ''A'' @ str_nat (length (agents s) + 1),
                     agents (add_new_agent_mid_day (\<lambda>i. 1 / 2) s),
                     agent_stats (add_new_agent_mid_day (\<lambda>i. 1 / 2) s))) =
   Some ([(''A2'', (0, 0))], ''A2'', [(''A2'', (50, 50))],
         [(''A2'', \<lparr>packages_delivered = 0, total_distance = 0, current_location = (50, 50),
                    route_history = []\<rparr>)])"
  by (simp add: init_def parse_package_def dict_get_def py_or_def initialize_agent_stats_def
      fresh_stats_def add_new_agent_mid_day_def uniform_def str_nat.simps digit_char_def Let_def)






text \<open>
  C9, as the code has it: the value under \<^verbatim>\<open>'warehouse_id'\<close> becomes the package's
  warehouse reference when it is present and truthy; when the key is absent or its value
  is falsy (\<^verbatim>\<open>None\<close>, \<^verbatim>\<open>False\<close>, zero, an empty string, list or dict), the reference is
  the value under \<^verbatim>\<open>'warehouse'\<close>, or \<^verbatim>\<open>None\<close> when that key is absent.
\<close>

theorem warehouse_reference_first_truthy:
  assumes "parse_packages ps = Inr qs"
  shows "length qs = length ps \<and>
    (\<forall>i<length ps.
       warehouse (qs ! i) =
         (case f_warehouse_id (ps ! i) of
            Some v \<Rightarrow> if truthy v then v else dict_get (f_warehouse (ps ! i))
          | None \<Rightarrow> dict_get (f_warehouse (ps ! i))))"
proof (intro conjI allI impI)
  show "length qs = length ps" using assms by (rule parse_packages_length)
next
  fix i assume "i < length ps"
  with assms have "parse_package (ps ! i) = Inr (qs ! i)" by (rule parse_packages_nth)
  then have "warehouse (qs ! i) =
      py_or (dict_get (f_warehouse_id (ps ! i))) (dict_get (f_warehouse (ps ! i)))"
    by (rule parse_package_warehouse)
  then show "warehouse (qs ! i) =
         (case f_warehouse_id (ps ! i) of
            Some v \<Rightarrow> if truthy v then v else dict_get (f_warehouse (ps ! i))
          | None \<Rightarrow> dict_get (f_warehouse (ps ! i)))"
    by (simp add: dict_get_def py_or_def split: option.splits)
qed

theorem warehouse_reference_first_truthy_witness:
  "parse_packages
     [\<lparr>f_id = Some (PStr ''P1''), f_warehouse_id = Some (PStr ''W1''),
       f_warehouse = Some (PStr ''W2''), f_destination = Some (5, 5)\<rparr>,
      \<lparr>f_id = Some (PStr ''P2''), f_warehouse_id = Some (PNum 0),
       f_warehouse = Some (PStr ''W2''), f_destination = Some (1, 2)\<rparr>] =
   Inr [\<lparr>pkg_id = PStr ''P1'', warehouse = PStr ''W1'', destination = (5, 5)\<rparr>,
        \<lparr>pkg_id = PStr ''P2'', warehouse = PStr ''W2'', destination = (1, 2)\<rparr>] \<and>
   length [\<lparr>pkg_id = PStr ''P1'', warehouse = PStr ''W1'', destination = (5, 5)\<rparr>,
           \<lparr>pkg_id = PStr ''P2'', warehouse = PStr ''W2'', destination = (1 :: real, 2 :: real)\<rparr>] = 2"
proof -
  let ?ps = "[\<lparr>f_id = Some (PStr ''P1''), f_warehouse_id = Some (PStr ''W1''),
               f_warehouse = Some (PStr ''W2''), f_destination = Some ((5, 5) :: point)\<rparr>,
              \<lparr>f_id = Some (PStr ''P2''), f_warehouse_id = Some (PNum 0),
               f_warehouse = Some (PStr ''W2''), f_destination = Some ((1, 2) :: point)\<rparr>]"
  let ?qs = "[\<lparr>pkg_id = PStr ''P1'', warehouse = PStr ''W1'', destination = (5, 5)\<rparr>,
              \<lparr>pkg_id = PStr ''P2'', warehouse = PStr ''W2'', destination = (1, 2)\<rparr>]"
  have h: "parse_packages ?ps = Inr ?qs"
    by (simp add: parse_package_def dict_get_def py_or_def)
  from warehouse_reference_first_truthy [OF h] h show ?thesis by simp
qed

text \<open>
  C9, as stated, fails: a record with an empty string under \<^verbatim>\<open>'warehouse_id'\<close> and
  \<^verbatim>\<open>W1\<close> under \<^verbatim>\<open>'warehouse'\<close> has the key \<^verbatim>\<open>'warehouse_id'\<close> present, and its
  reference is \<^verbatim>\<open>W1\<close>.
\<close>

theorem warehouse_id_present_not_used_counterexample:
  "f_warehouse_id \<lparr>f_id = Some (PStr ''P1''), f_warehouse_id = Some (PStr ''''),
                   f_warehouse = Some (PStr ''W1''), f_destination = Some (5, 5)\<rparr> = Some (PStr '''') \<and>
   parse_packages [\<lparr>f_id = Some (PStr ''P1''), f_warehouse_id = Some (PStr ''''),
                    f_warehouse = Some (PStr ''W1''), f_destination = Some (5, 5)\<rparr>] =
   Inr [\<lparr>pkg_id = PStr ''P1'', warehouse = PStr ''W1'', destination = (5, 5)\<rparr>]"
  by (simp add: parse_package_def dict_get_def py_or_def)

text \<open>
  C10. With the agents' stats a dict (distinct keys, which loading establishes and the
  simulation keeps): the report is the per-agent entries, with the best agent's
  identifier stored among them under the key \<^verbatim>\<open>best_agent\<close> when a best agent is
  designated; the sum that the report generation compares with the package count is the
  sum of the delivered counts of all agents but one named \<^verbatim>\<open>best_agent\<close>; when no agent
  is named \<^verbatim>\<open>best_agent\<close>, the report is one entry per agent, in the agents' order,
  followed by at most one designator; and when an agent is named \<^verbatim>\<open>best_agent\<close> and a
  best agent is designated, the report has the agents' keys only and holds the
  designator, not the agent's entry, under \<^verbatim>\<open>best_agent\<close>.
\<close>

theorem report_is_one_mapping:
  assumes "distinct (map fst (agent_stats s))"
  shows "(calculate_efficiency s = agent_entries s \<or>
          (\<exists>b. calculate_efficiency s = AList.update ''best_agent'' (Designator b) (agent_entries s))) \<and>
         generate_report s =
           Inr (calculate_efficiency s, delivered_but_best_agent s,
                delivered_but_best_agent s \<noteq> length (packages s)) \<and>
         (''best_agent'' \<notin> fst ` set (agent_stats s) \<longrightarrow>
            (calculate_efficiency s = agent_entries s \<or>
             (\<exists>b. calculate_efficiency s = agent_entries s @ [(''best_agent'', Designator b)]))) \<and>
         (\<forall>b. ''best_agent'' \<in> fst ` set (agent_stats s) \<and>
               (''best_agent'', Designator b) \<in> set (calculate_efficiency s) \<longrightarrow>
            map fst (calculate_efficiency s) = map fst (agent_stats s) \<and>
            map_of (calculate_efficiency s) ''best_agent'' = Some (Designator b))"
proof (intro conjI allI impI)
  show "calculate_efficiency s = agent_entries s \<or>
          (\<exists>b. calculate_efficiency s = AList.update ''best_agent'' (Designator b) (agent_entries s))"
    using calculate_efficiency_cases [OF assms] by blast
next
  show "generate_report s =
           Inr (calculate_efficiency s, delivered_but_best_agent s,
                delivered_but_best_agent s \<noteq> length (packages s))"
    using assms by (rule generate_report_closed)
next
  assume "''best_agent'' \<notin> fst ` set (agent_stats s)"
  then have "''best_agent'' \<notin> fst ` set (agent_entries s)"
    by (metis agent_entries_keys list.set_map)
  then have "AList.update ''best_agent'' v (agent_entries s) = agent_entries s @ [(''best_agent'', v)]" for v
    by (rule update_absent)
  then show "calculate_efficiency s = agent_entries s \<or>
             (\<exists>b. calculate_efficiency s = agent_entries s @ [(''best_agent'', Designator b)])"
    using calculate_efficiency_cases [OF assms] by auto
next
  fix b
  assume h: "''best_agent'' \<in> fst ` set (agent_stats s) \<and>
               (''best_agent'', Designator b) \<in> set (calculate_efficiency s)"
  then have eq: "calculate_efficiency s = AList.update ''best_agent'' (Designator b) (agent_entries s)"
    using best_designated [OF assms] by blast
  have "''best_agent'' \<in> set (map fst (agent_entries s))" using h by simp
  then show "map fst (calculate_efficiency s) = map fst (agent_stats s)"
    unfolding eq by (simp add: update_keys)
  show "map_of (calculate_efficiency s) ''best_agent'' = Some (Designator b)"
    unfolding eq by (simp add: update_conv')
qed

theorem report_is_one_mapping_witness:
  "generate_report
     \<lparr>warehouses = [(''W1'', (0, 0))], agents = [(''best_agent'', (3, 4)), (''A2'', (0, 2))],
      packages = [\<lparr>pkg_id = PStr ''P1'', warehouse = PStr ''W1'', destination = (3, 4)\<rparr>,
                  \<lparr>pkg_id = PStr ''P2'', warehouse = PStr ''W1'', destination = (0, 2)\<rparr>,
                  \<lparr>pkg_id = PStr ''P3'', warehouse = PStr ''W1'', destination = (0, 2)\<rparr>],
      agent_stats =
        [(''best_agent'', \<lparr>packages_delivered = 1, total_distance = 5, current_location = (3, 4),
                            route_history = []\<rparr>),
         (''A2'', \<lparr>packages_delivered = 2, total_distance = 4, current_location = (0, 2),
                    route_history = []\<rparr>)],
      enable_random_delays = False, rng_pos = 0\<rparr> =
   Inr ([(''best_agent'', Designator ''A2''),
         (''A2'', Entry \<lparr>r_packages_delivered = 2, r_total_distance = 4, r_efficiency = 2\<rparr>)],
        2, True) \<and>
   map fst (calculate_efficiency
     \<lparr>warehouses = [(''W1'', (0, 0))], agents = [(''best_agent'', (3, 4)), (''A2'', (0, 2))],
      packages = [\<lparr>pkg_id = PStr ''P1'', warehouse = PStr ''W1'', destination = (3, 4)\<rparr>,
                  \<lparr>pkg_id = PStr ''P2'', warehouse = PStr ''W1'', destination = (0, 2)\<rparr>,
                  \<lparr>pkg_id = PStr ''P3'', warehouse = PStr ''W1'', destination = (0, 2)\<rparr>],
      agent_stats =
        [(''best_agent'', \<lparr>packages_delivered = 1, total_distance = 5, current_location = (3, 4),
                            route_history = []\<rparr>),
         (''A2'', \<lparr>packages_delivered = 2, total_distance = 4, current_location = (0, 2),
                    route_history = []\<rparr>)],
      enable_random_delays = False, rng_pos = 0\<rparr>) = [''best_agent'', ''A2''] \<and>
   (\<exists>b. calculate_efficiency
     \<lparr>warehouses = [(''W1'', (0, 0))], agents = [(''A1'', (3, 4))],
      packages = [\<lparr>pkg_id = PStr ''P1'', warehouse = PStr ''W1'', destination = (3, 4)\<rparr>],
      agent_stats =
        [(''A1'', \<lparr>packages_delivered = 1, total_distance = 5, current_location = (3, 4),
                    route_history = []\<rparr>)],
      enable_random_delays = False, rng_pos = 0\<rparr> =
     [(''A1'', Entry \<lparr>r_packages_delivered = 1, r_total_distance = 5, r_efficiency = 5\<rparr>),
      (''best_agent'', Designator b)])"
proof -
  let ?s = "\<lparr>warehouses = [(''W1'', (0, 0))], agents = [(''best_agent'', (3, 4)), (''A2'', (0, 2))],
      packages = [\<lparr>pkg_id = PStr ''P1'', warehouse = PStr ''W1'', destination = (3, 4)\<rparr>,
                  \<lparr>pkg_id = PStr ''P2'', warehouse = PStr ''W1'', destination = (0, 2)\<rparr>,
                  \<lparr>pkg_id = PStr ''P3'', warehouse = PStr ''W1'', destination = (0, 2)\<rparr>],
      agent_stats =
        [(''best_agent'', \<lparr>packages_delivered = 1, total_distance = 5, current_location = (3, 4),
                            route_history = []\<rparr>),
         (''A2'', \<lparr>packages_delivered = 2, total_distance = 4, current_location = (0, 2),
                    route_history = []\<rparr>)],
      enable_random_delays = False, rng_pos = 0\<rparr>"
  let ?t = "\<lparr>warehouses = [(''W1'', (0, 0))], agents = [(''A1'', (3, 4))],
      packages = [\<lparr>pkg_id = PStr ''P1'', warehouse = PStr ''W1'', destination = (3, 4)\<rparr>],
      agent_stats =
        [(''A1'', \<lparr>packages_delivered = 1, total_distance = 5, current_location = (3, 4),
                    route_history = []\<rparr>)],
      enable_random_delays = False, rng_pos = 0\<rparr>"
  have d: "distinct (map fst (agent_stats ?s))" by simp
  have dt: "distinct (map fst (agent_stats ?t))" by simp
  have c: "calculate_efficiency ?s =
      [(''best_agent'', Designator ''A2''),
       (''A2'', Entry \<lparr>r_packages_delivered = 2, r_total_distance = 4, r_efficiency = 2\<rparr>)]"
    by (simp add: calculate_efficiency_def report_of_def Let_def round2_def)
  have n: "delivered_but_best_agent ?s = 2" by (simp add: delivered_but_best_agent_def)
  from report_is_one_mapping [OF d]
  have "generate_report ?s =
           Inr (calculate_efficiency ?s, delivered_but_best_agent ?s,
                delivered_but_best_agent ?s \<noteq> length (packages ?s))"
    by blast
  then have 1: "generate_report ?s =
      Inr ([(''best_agent'', Designator ''A2''),
            (''A2'', Entry \<lparr>r_packages_delivered = 2, r_total_distance = 4, r_efficiency = 2\<rparr>)],
           2, True)"
    unfolding c n by simp
  have h: "''best_agent'' \<in> fst ` set (agent_stats ?s) \<and>
           (''best_agent'', Designator ''A2'') \<in> set (calculate_efficiency ?s)"
    unfolding c by simp
  from report_is_one_mapping [OF d] h
  have "map fst (calculate_efficiency ?s) = map fst (agent_stats ?s)" by blast
  then have 2: "map fst (calculate_efficiency ?s) = [''best_agent'', ''A2'']" by simp
  have nb: "''best_agent'' \<notin> fst ` set (agent_stats ?t)" by simp
  have ne: "calculate_efficiency ?t \<noteq> agent_entries ?t"
    by (simp add: calculate_efficiency_def agent_entries_def report_of_def Let_def)
  from report_is_one_mapping [OF dt] nb ne
  have "\<exists>b. calculate_efficiency ?t = agent_entries ?t @ [(''best_agent'', Designator b)]"
    by blast
  then have 3: "\<exists>b. calculate_efficiency ?t =
     [(''A1'', Entry \<lparr>r_packages_delivered = 1, r_total_distance = 5, r_efficiency = 5\<rparr>),
      (''best_agent'', Designator b)]"
    by (simp add: agent_entries_def report_of_def Let_def round2_def)
  from 1 2 3 show ?thesis by blast
qed

end
